theory Spec2Isabelle
  imports Main
begin

section \<open>Progressive image loading: the two hooks and the Image component\<close>

text \<open>
  The development embeds the hooks \<^verbatim>\<open>useImageOnLoad\<close> and
  \<^verbatim>\<open>useIntersectionObserver\<close> and the component \<^verbatim>\<open>Image\<close> that composes
  them. A hook's React state (\<^verbatim>\<open>useState\<close>, \<^verbatim>\<open>useRef\<close>) is a record that each
  operation takes and returns; what the hook returns on a render is a function of that
  record.
\<close>

subsection \<open>Style objects\<close>

text \<open>
  An inline style is a JavaScript object literal: a finite map from property names to
  values, a value being a number (\<^verbatim>\<open>opacity: 1\<close>, \<^verbatim>\<open>width: 600\<close>) or a string.
  Object spread \<^verbatim>\<open>{...a, ...b}\<close> keeps every key of both, the right one winning.
\<close>

datatype css = Num nat | Str string

type_synonym style = "string \<rightharpoonup> css"

definition spread :: "style \<Rightarrow> style \<Rightarrow> style" where
  "spread a b = a ++ b"

subsection \<open>useImageOnLoad\<close>

text \<open>
  \<^verbatim>\<open>
  const useImageOnLoad = () => {
    const [isLoaded, setIsLoaded] = useState(false)
    const handleImageOnLoad = () => setIsLoaded(true)
    const transitionStyles = {
      lowRes: {
        opacity: isLoaded ? 0 : 1,
        filter: 'blur(2px)',
        transition: 'opacity 500ms ease-out 50ms',
      },
      highRes: {
        opacity: isLoaded ? 1 : 0,
        transition: 'opacity 500ms ease-in 50ms',
      },
    }
    return { handleImageOnLoad, transitionStyles }
  }
  \<close>
\<close>

record ImageOnLoad =
  isLoaded :: bool

definition useImageOnLoad_init :: ImageOnLoad where
  "useImageOnLoad_init = \<lparr>isLoaded = False\<rparr>"

definition setIsLoaded :: "bool \<Rightarrow> ImageOnLoad \<Rightarrow> ImageOnLoad" where
  "setIsLoaded b s = s\<lparr>isLoaded := b\<rparr>"

definition handleImageOnLoad :: "ImageOnLoad \<Rightarrow> ImageOnLoad" where
  "handleImageOnLoad s = setIsLoaded True s"

record transition_styles =
  lowRes :: style
  highRes :: style

definition transitionStyles :: "ImageOnLoad \<Rightarrow> transition_styles" where
  "transitionStyles s =
     \<lparr>lowRes = [''opacity'' \<mapsto> Num (if isLoaded s then 0 else 1),
                ''filter'' \<mapsto> Str ''blur(2px)'',
                ''transition'' \<mapsto> Str ''opacity 500ms ease-out 50ms''],
      highRes = [''opacity'' \<mapsto> Num (if isLoaded s then 1 else 0),
                 ''transition'' \<mapsto> Str ''opacity 500ms ease-in 50ms'']\<rparr>"

text \<open>
  The only writer of \<^verbatim>\<open>isLoaded\<close> is \<^verbatim>\<open>handleImageOnLoad\<close>, so the life of one
  hook instance is a number of calls of it.
\<close>

fun loads :: "nat \<Rightarrow> ImageOnLoad \<Rightarrow> ImageOnLoad" where
  "loads 0 s = s"
| "loads (Suc n) s = loads n (handleImageOnLoad s)"

subsection \<open>The browser's IntersectionObserver\<close>

text \<open>
  The hook uses three things of the browser interface: the constructor, \<^verbatim>\<open>observe\<close>
  and \<^verbatim>\<open>disconnect\<close>. An observer object holds its observation targets;
  \<^verbatim>\<open>observe\<close> adds a target that is not yet among them, \<^verbatim>\<open>disconnect\<close> removes
  them all. The callback and the options the hook passes to the constructor are the same
  for every observer it makes (\<^verbatim>\<open>updateEntry\<close> and a fixed literal) and decide
  nothing about which targets are observed, so they are not stored. A DOM element is
  its identity; observer objects live in a store, an object's reference being its index.
\<close>

type_synonym element = nat

record IntersectionObserver =
  targets :: "element list"

definition new_IntersectionObserver :: IntersectionObserver where
  "new_IntersectionObserver = \<lparr>targets = []\<rparr>"

definition observe :: "element \<Rightarrow> IntersectionObserver \<Rightarrow> IntersectionObserver" where
  "observe node ob =
     (if node \<in> set (targets ob) then ob else ob\<lparr>targets := targets ob @ [node]\<rparr>)"

definition disconnect :: "IntersectionObserver \<Rightarrow> IntersectionObserver" where
  "disconnect ob = ob\<lparr>targets := []\<rparr>"

text \<open>
  An entry delivered to the callback: the hook reads \<^verbatim>\<open>isIntersecting\<close> only, the
  rest of what the browser reports (ratio, rectangles, target, time) is carried along.
\<close>

record 'a IntersectionObserverEntry =
  isIntersecting :: bool
  report :: 'a

text \<open>Reading a JavaScript array: an index out of range gives \<^verbatim>\<open>undefined\<close>.\<close>

definition at_index :: "'a list \<Rightarrow> nat \<Rightarrow> 'a option" where
  "at_index xs i = (if i < length xs then Some (xs ! i) else None)"

text \<open>Calling a method on the object a reference points to.\<close>

definition call_on :: "nat \<Rightarrow> ('a \<Rightarrow> 'a) \<Rightarrow> 'a list \<Rightarrow> 'a list" where
  "call_on r m store = (if r < length store then store[r := m (store ! r)] else store)"

subsection \<open>useIntersectionObserver\<close>

text \<open>
  \<^verbatim>\<open>
  const useIntersectionObserver = elementRef => {
    const observer = useRef()
    const [entry, setEntry] = useState()
    const options = { threshold: 0.1, root: null, rootMargin: '0%' }
    const updateEntry = entries => {
      setEntry(entries[0])
    }
    useEffect(() => {
      const node = elementRef?.current
      if (!node) return
      if (observer.current) observer.current.disconnect()
      observer.current = new IntersectionObserver(updateEntry, options)
      const { current: currentObserver } = observer
      currentObserver.observe(node)
      return () => currentObserver.disconnect()
    }, [elementRef])
    return { isVisible: !!entry?.isIntersecting, entry }
  }
  \<close>
  The state of one hook instance: the observers made so far, the mutable cell
  \<^verbatim>\<open>observer.current\<close>, the state variable \<^verbatim>\<open>entry\<close>, and the clean-up function
  that React keeps from the last run of the effect. That function is a closure over
  \<^verbatim>\<open>currentObserver\<close>, so it is the reference of the observer it will disconnect.
\<close>

record 'a hook =
  observers :: "IntersectionObserver list"
  observer :: "nat option"
  entry :: "'a IntersectionObserverEntry option"
  cleanup :: "nat option"

definition useIntersectionObserver_init :: "'a hook" where
  "useIntersectionObserver_init =
     \<lparr>observers = [], observer = None, entry = None, cleanup = None\<rparr>"

definition setEntry :: "'a IntersectionObserverEntry option \<Rightarrow> 'a hook \<Rightarrow> 'a hook" where
  "setEntry e s = s\<lparr>entry := e\<rparr>"

definition updateEntry :: "'a IntersectionObserverEntry list \<Rightarrow> 'a hook \<Rightarrow> 'a hook" where
  "updateEntry entries s = setEntry (at_index entries 0) s"

definition isVisible :: "'a hook \<Rightarrow> bool" where
  "isVisible s = (case entry s of None \<Rightarrow> False | Some e \<Rightarrow> isIntersecting e)"

text \<open>The three statements of the effect after its guard, one definition each.\<close>

definition disconnect_previous :: "'a hook \<Rightarrow> 'a hook" where
  "disconnect_previous s =
     (case observer s of
        None \<Rightarrow> s
      | Some r \<Rightarrow> s\<lparr>observers := call_on r disconnect (observers s)\<rparr>)"

definition create_observer :: "'a hook \<Rightarrow> 'a hook" where
  "create_observer s =
     s\<lparr>observers := observers s @ [new_IntersectionObserver],
       observer := Some (length (observers s))\<rparr>"

definition observe_node :: "element \<Rightarrow> nat \<Rightarrow> 'a hook \<Rightarrow> 'a hook" where
  "observe_node node currentObserver s =
     s\<lparr>observers := call_on currentObserver (observe node) (observers s)\<rparr>"

text \<open>
  The effect's function: \<open>node\<close> is \<^verbatim>\<open>elementRef?.current\<close>, absent when the ref or
  its content is. The result is the new state and the clean-up function returned.
\<close>

definition effect :: "element option \<Rightarrow> 'a hook \<Rightarrow> 'a hook \<times> nat option" where
  "effect node s =
     (case node of
        None \<Rightarrow> (s, None)
      | Some n \<Rightarrow>
          (let s' = create_observer (disconnect_previous s) in
           case observer s' of
             None \<Rightarrow> (s', None)
           | Some currentObserver \<Rightarrow> (observe_node n currentObserver s', Some currentObserver)))"

text \<open>
  React's part. When the effect's dependency \<^verbatim>\<open>elementRef\<close> changes (and on mount),
  React first calls the clean-up function kept from the previous run, if there is one,
  then runs the effect and keeps what it returns: this is \<open>bind\<close>, given the element
  the new ref holds. At unmount it calls the kept clean-up function: this is
  \<open>dispose\<close>.
\<close>

definition run_cleanup :: "'a hook \<Rightarrow> 'a hook" where
  "run_cleanup s =
     (case cleanup s of
        None \<Rightarrow> s
      | Some currentObserver \<Rightarrow> s\<lparr>observers := call_on currentObserver disconnect (observers s)\<rparr>)"

definition bind :: "element option \<Rightarrow> 'a hook \<Rightarrow> 'a hook" where
  "bind node s = (case effect node (run_cleanup s) of (s', c) \<Rightarrow> s'\<lparr>cleanup := c\<rparr>)"

definition dispose :: "'a hook \<Rightarrow> 'a hook" where
  "dispose s = run_cleanup s"

text \<open>
  The states a call of \<open>bind\<close> with an element passes through, in order: after the
  clean-up, after each of the three statements, and at the end.
\<close>

definition bind_states :: "element \<Rightarrow> 'a hook \<Rightarrow> 'a hook list" where
  "bind_states n s =
     [run_cleanup s,
      disconnect_previous (run_cleanup s),
      create_observer (disconnect_previous (run_cleanup s)),
      bind (Some n) s]"

text \<open>
  What is observed: the number of observations that are active (an observer watching a
  target), and the element the observer in \<^verbatim>\<open>observer.current\<close> watches.
\<close>

definition active_observations :: "'a hook \<Rightarrow> nat" where
  "active_observations s = sum_list (map (\<lambda>ob. length (targets ob)) (observers s))"

definition currentTarget :: "'a hook \<Rightarrow> element option" where
  "currentTarget s =
     (case observer s of
        None \<Rightarrow> None
      | Some r \<Rightarrow>
          (case at_index (observers s) r of
             None \<Rightarrow> None
           | Some ob \<Rightarrow> at_index (targets ob) 0))"

text \<open>The events of a hook instance's life, and a run of them from a state.\<close>

datatype 'a hook_event =
    Bind "element option"
  | Deliver "'a IntersectionObserverEntry list"
  | Dispose

fun hook_step :: "'a hook \<Rightarrow> 'a hook_event \<Rightarrow> 'a hook" where
  "hook_step s (Bind node) = bind node s"
| "hook_step s (Deliver entries) = updateEntry entries s"
| "hook_step s Dispose = dispose s"

definition hook_run :: "'a hook_event list \<Rightarrow> 'a hook \<Rightarrow> 'a hook" where
  "hook_run evs s = foldl hook_step s evs"

text \<open>The entries of the last batch delivered in a run, if any was.\<close>

fun last_batch :: "'a hook_event list \<Rightarrow> 'a IntersectionObserverEntry list option" where
  "last_batch [] = None"
| "last_batch (ev # evs) =
     (case last_batch evs of
        Some b \<Rightarrow> Some b
      | None \<Rightarrow> (case ev of Deliver b \<Rightarrow> Some b | _ \<Rightarrow> None))"

subsection \<open>The Image component\<close>

text \<open>
  \<^verbatim>\<open>
  const Image = ({ width = '100%', height = '100%', lowResSrc, highResSrc }) => {
    const { handleImageOnLoad, transitionStyles } = useImageOnLoad()
    const imageRef = useRef()
    const { isVisible } = useIntersectionObserver(imageRef)
    const styles = {
      wrapper: { position: 'relative', width, height },
      image: { position: 'absolute', width: '100%', height: '100%',
               objectPosition: 'center center', objectFit: 'cover' },
    }
    const lowResStyle = { ...styles.image, ...transitionStyles.lowRes }
    const hightResStyle = { ...styles.image, ...transitionStyles.highRes }
    return (
      <div style={styles.wrapper} ref={imageRef}>
        <img src={lowResSrc} style={lowResStyle} />
        {isVisible && (
          <img src={highResSrc} style={hightResStyle} onLoad={handleImageOnLoad} />
        )}
      </div>
    )
  }
  \<close>
\<close>

record props =
  width :: "css option"
  height :: "css option"
  lowResSrc :: string
  highResSrc :: string

record 'a Image =
  load_hook :: ImageOnLoad
  visibility_hook :: "'a hook"

definition Image_init :: "'a Image" where
  "Image_init = \<lparr>load_hook = useImageOnLoad_init, visibility_hook = useIntersectionObserver_init\<rparr>"

record img =
  src :: string
  img_style :: style

record rendered =
  wrapper :: style
  lowResImg :: img
  highResImg :: "img option"

definition default_to :: "'a \<Rightarrow> 'a option \<Rightarrow> 'a" where
  "default_to d v = (case v of None \<Rightarrow> d | Some x \<Rightarrow> x)"

definition styles_wrapper :: "props \<Rightarrow> style" where
  "styles_wrapper p =
     [''position'' \<mapsto> Str ''relative'',
      ''width'' \<mapsto> default_to (Str ''100%'') (width p),
      ''height'' \<mapsto> default_to (Str ''100%'') (height p)]"

definition styles_image :: style where
  "styles_image =
     [''position'' \<mapsto> Str ''absolute'',
      ''width'' \<mapsto> Str ''100%'',
      ''height'' \<mapsto> Str ''100%'',
      ''objectPosition'' \<mapsto> Str ''center center'',
      ''objectFit'' \<mapsto> Str ''cover'']"

definition lowResStyle :: "'a Image \<Rightarrow> style" where
  "lowResStyle s = spread styles_image (lowRes (transitionStyles (load_hook s)))"

definition hightResStyle :: "'a Image \<Rightarrow> style" where
  "hightResStyle s = spread styles_image (highRes (transitionStyles (load_hook s)))"

definition render :: "props \<Rightarrow> 'a Image \<Rightarrow> rendered" where
  "render p s =
     \<lparr>wrapper = styles_wrapper p,
      lowResImg = \<lparr>src = lowResSrc p, img_style = lowResStyle s\<rparr>,
      highResImg =
        (if isVisible (visibility_hook s)
         then Some \<lparr>src = highResSrc p, img_style = hightResStyle s\<rparr>
         else None)\<rparr>"

text \<open>The high-resolution image is requested exactly when its element is rendered.\<close>

definition shouldRenderHighFidelity :: "props \<Rightarrow> 'a Image \<Rightarrow> bool" where
  "shouldRenderHighFidelity p s = (highResImg (render p s) \<noteq> None)"

text \<open>
  The events of a component instance: those of its visibility hook, and the load event
  of the high-resolution image, which calls \<^verbatim>\<open>handleImageOnLoad\<close>. The handler is
  attached only while that image is rendered; the model accepts the load event in every
  state, which adds runs and removes none.
\<close>

datatype 'a Image_event = Visibility "'a hook_event" | HighResLoaded

fun Image_step :: "'a Image \<Rightarrow> 'a Image_event \<Rightarrow> 'a Image" where
  "Image_step s (Visibility ev) = s\<lparr>visibility_hook := hook_step (visibility_hook s) ev\<rparr>"
| "Image_step s HighResLoaded = s\<lparr>load_hook := handleImageOnLoad (load_hook s)\<rparr>"

definition Image_run :: "'a Image_event list \<Rightarrow> 'a Image \<Rightarrow> 'a Image" where
  "Image_run evs s = foldl Image_step s evs"

text \<open>The visibility events among a component's events, in order.\<close>

fun visibility_events :: "'a Image_event list \<Rightarrow> 'a hook_event list" where
  "visibility_events [] = []"
| "visibility_events (Visibility ev # evs) = ev # visibility_events evs"
| "visibility_events (HighResLoaded # evs) = visibility_events evs"

subsection \<open>Reachable states and what a run has delivered\<close>

text \<open>The state of a fresh hook instance after a run of events.\<close>

definition reached :: "'a hook_event list \<Rightarrow> 'a hook" where
  "reached evs = hook_run evs useIntersectionObserver_init"

text \<open>An event that hands the effect a real element.\<close>

fun real_target :: "'a hook_event \<Rightarrow> bool" where
  "real_target (Bind (Some n)) = True"
| "real_target ev = False"

text \<open>A delivery whose first entry reports an intersection.\<close>

fun starts_intersecting :: "'a hook_event \<Rightarrow> bool" where
  "starts_intersecting (Deliver (e # es)) = isIntersecting e"
| "starts_intersecting ev = False"

text \<open>Whether the first entry of a batch, if there is a batch and it has one, intersects.\<close>

definition first_intersecting :: "'a IntersectionObserverEntry list option \<Rightarrow> bool" where
  "first_intersecting b =
     (case b of
        None \<Rightarrow> False
      | Some entries \<Rightarrow>
          (case at_index entries 0 of None \<Rightarrow> False | Some e \<Rightarrow> isIntersecting e))"

text \<open>
  The shape of every reachable state. Either no observer was made yet, or
  \<^verbatim>\<open>observer.current\<close> is the observer made last, every older observer watches
  nothing, the current one watches at most one element, and the kept clean-up function,
  if any, is for the current observer; without one the current observer watches nothing.
\<close>

definition idle :: "IntersectionObserver \<Rightarrow> bool" where
  "idle ob = (targets ob = [])"

definition linked :: "'a hook \<Rightarrow> bool" where
  "linked s =
     (case observer s of
        None \<Rightarrow> observers s = [] \<and> cleanup s = None
      | Some r \<Rightarrow>
          Suc r = length (observers s)
          \<and> list_all idle (butlast (observers s))
          \<and> length (targets (last (observers s))) \<le> 1
          \<and> (case cleanup s of None \<Rightarrow> idle (last (observers s)) | Some c \<Rightarrow> c = r))"

section \<open>Proofs\<close>

subsection \<open>Facts about the model\<close>

lemma handleImageOnLoad_isLoaded: "isLoaded (handleImageOnLoad s)"
  by (simp add: handleImageOnLoad_def setIsLoaded_def)

lemma loads_keeps_loaded: "isLoaded s \<Longrightarrow> isLoaded (loads n s)"
  by (induction n arbitrary: s) (simp_all add: handleImageOnLoad_isLoaded)

lemma call_on_last: "call_on (length xs) m (xs @ [x]) = xs @ [m x]"
  by (simp add: call_on_def)

lemma linked_cases:
  assumes "linked s"
  obtains (fresh) "observer s = None" "observers s = []" "cleanup s = None"
  | (current) xs x where "observers s = xs @ [x]" "observer s = Some (length xs)"
      "list_all idle xs" "length (targets x) \<le> 1"
      "cleanup s = None \<and> idle x \<or> cleanup s = Some (length xs)"
proof (cases "observer s")
  case None
  with assms show ?thesis by (intro fresh) (simp_all add: linked_def)
next
  case (Some r)
  with assms have len: "Suc r = length (observers s)" by (simp add: linked_def)
  then have ne: "observers s \<noteq> []" by auto
  then obtain xs x where xs: "observers s = xs @ [x]" by (meson rev_exhaust)
  with len have r: "r = length xs" by simp
  from assms Some xs r show ?thesis
    by (intro current [of xs x]) (auto simp add: linked_def split: option.splits)
qed

lemma sum_idle: "list_all idle xs \<Longrightarrow> sum_list (map (\<lambda>ob. length (targets ob)) xs) = 0"
  by (induction xs) (simp_all add: idle_def)

lemma linked_init: "linked useIntersectionObserver_init"
  by (simp add: linked_def useIntersectionObserver_init_def)

lemma linked_active: "linked s \<Longrightarrow> active_observations s \<le> 1"
  by (erule linked_cases) (simp_all add: active_observations_def sum_idle)

lemma linked_run_cleanup:
  assumes "linked s"
  shows "linked (run_cleanup s) \<and> active_observations (run_cleanup s) = 0
         \<and> observer (run_cleanup s) = observer s \<and> entry (run_cleanup s) = entry s
         \<and> cleanup (run_cleanup s) = cleanup s"
  using assms
proof (cases rule: linked_cases)
  case fresh
  then show ?thesis using assms by (simp add: run_cleanup_def active_observations_def)
next
  case (current xs x)
  then show ?thesis
    by (auto simp add: run_cleanup_def linked_def call_on_last active_observations_def
        list_all_iff idle_def disconnect_def)
qed

lemma idle_disconnect_previous:
  assumes "linked s"
  shows "linked (disconnect_previous s) \<and> active_observations (disconnect_previous s) = 0
         \<and> list_all idle (observers (disconnect_previous s))
         \<and> entry (disconnect_previous s) = entry s"
  using assms
proof (cases rule: linked_cases)
  case fresh
  then show ?thesis using assms by (simp add: disconnect_previous_def active_observations_def)
next
  case (current xs x)
  then show ?thesis
    by (auto simp add: disconnect_previous_def linked_def call_on_last active_observations_def
        list_all_iff idle_def disconnect_def)
qed

lemma create_observer_idle:
  assumes "list_all idle (observers s)"
  shows "active_observations (create_observer s) = 0
         \<and> observers (create_observer s) = observers s @ [new_IntersectionObserver]
         \<and> observer (create_observer s) = Some (length (observers s))
         \<and> entry (create_observer s) = entry s"
  using assms
  by (simp add: create_observer_def active_observations_def sum_idle new_IntersectionObserver_def)

lemma bind_Some:
  assumes "linked s"
  shows "linked (bind (Some n) s) \<and> active_observations (bind (Some n) s) = 1
         \<and> currentTarget (bind (Some n) s) = Some n
         \<and> entry (bind (Some n) s) = entry s
         \<and> cleanup (bind (Some n) s) = observer (bind (Some n) s)"
proof -
  let ?d = "disconnect_previous (run_cleanup s)"
  from assms have l: "linked (run_cleanup s)" and e: "entry (run_cleanup s) = entry s"
    by (simp_all add: linked_run_cleanup)
  from idle_disconnect_previous [OF l] e
  have i: "list_all idle (observers ?d)" and e': "entry ?d = entry s" by simp_all
  note c = create_observer_idle [OF i]
  from c i e' show ?thesis
    by (simp add: bind_def effect_def Let_def observe_node_def call_on_last linked_def
        observe_def new_IntersectionObserver_def active_observations_def sum_idle
        currentTarget_def at_index_def)
qed

lemma bind_None:
  assumes "linked s"
  shows "linked (bind None s) \<and> active_observations (bind None s) = 0
         \<and> currentTarget (bind None s) = None
         \<and> entry (bind None s) = entry s \<and> observer (bind None s) = observer s
         \<and> cleanup (bind None s) = None"
  using assms
proof (cases rule: linked_cases)
  case fresh
  then show ?thesis
    by (simp add: bind_def effect_def run_cleanup_def linked_def active_observations_def
        currentTarget_def)
next
  case (current xs x)
  then show ?thesis
    by (auto simp add: bind_def effect_def run_cleanup_def linked_def call_on_last
        active_observations_def list_all_iff idle_def disconnect_def currentTarget_def
        at_index_def)
qed

lemma linked_bind: "linked s \<Longrightarrow> linked (bind node s)"
  by (cases node) (simp_all add: bind_Some bind_None)

lemma linked_updateEntry: "linked s \<Longrightarrow> linked (updateEntry entries s)"
  by (auto simp add: linked_def updateEntry_def setEntry_def split: option.splits)

lemma linked_hook_step: "linked s \<Longrightarrow> linked (hook_step s ev)"
  by (cases ev) (simp_all add: linked_bind linked_updateEntry dispose_def linked_run_cleanup)

lemma linked_foldl: "linked s \<Longrightarrow> linked (foldl hook_step s evs)"
  by (induction evs arbitrary: s) (simp_all add: linked_hook_step)

lemma linked_hook_run: "linked (hook_run evs useIntersectionObserver_init)"
  by (simp add: hook_run_def linked_foldl linked_init)

lemma linked_reached: "linked (reached evs)"
  by (simp add: reached_def linked_hook_run)

lemma entry_run_cleanup: "entry (run_cleanup s) = entry s"
  by (simp add: run_cleanup_def split: option.splits)

lemma entry_bind: "entry (bind node s) = entry s"
  by (simp add: bind_def effect_def Let_def create_observer_def disconnect_previous_def
      observe_node_def entry_run_cleanup split: option.splits prod.splits)

lemma entry_hook_step:
  "entry (hook_step s ev) = (case ev of Deliver b \<Rightarrow> at_index b 0 | _ \<Rightarrow> entry s)"
  by (cases ev) (simp_all add: entry_bind dispose_def entry_run_cleanup updateEntry_def setEntry_def)

lemma entry_foldl:
  "entry (foldl hook_step s evs) =
     (case last_batch evs of None \<Rightarrow> entry s | Some b \<Rightarrow> at_index b 0)"
proof (induction evs arbitrary: s)
  case Nil
  show ?case by simp
next
  case (Cons ev evs)
  show ?case
    by (simp add: Cons.IH entry_hook_step split: option.splits hook_event.splits)
qed

lemma last_batch_in: "last_batch evs = Some b \<Longrightarrow> Deliver b \<in> set evs"
  by (induction evs) (auto split: option.splits hook_event.splits)

lemma last_batch_snoc: "last_batch (evs @ [Deliver b]) = Some b"
  by (induction evs) simp_all

lemma first_intersecting_starts:
  "first_intersecting (Some b) \<Longrightarrow> starts_intersecting (Deliver b)"
  by (cases b) (simp_all add: first_intersecting_def at_index_def)

lemma never_intersecting:
  "\<not> list_ex starts_intersecting evs \<Longrightarrow> \<not> first_intersecting (last_batch evs)"
proof (cases "last_batch evs")
  case None
  then show ?thesis by (simp add: first_intersecting_def)
next
  case (Some b)
  assume n: "\<not> list_ex starts_intersecting evs"
  from Some have "Deliver b \<in> set evs" by (rule last_batch_in)
  with n have "\<not> starts_intersecting (Deliver b)" by (auto simp add: list_ex_iff)
  with Some show ?thesis using first_intersecting_starts by auto
qed

lemma visibility_foldl:
  "visibility_hook (foldl Image_step s evs) =
     foldl hook_step (visibility_hook s) (visibility_events evs)"
proof (induction evs arbitrary: s)
  case Nil
  show ?case by simp
next
  case (Cons ev evs)
  show ?case by (cases ev) (simp_all add: Cons.IH)
qed

lemma visibility_Image_run:
  "visibility_hook (Image_run evs Image_init) = reached (visibility_events evs)"
  by (simp add: Image_run_def visibility_foldl reached_def hook_run_def Image_init_def)

lemma visibility_events_snoc:
  "visibility_events (evs @ [Visibility ev]) = visibility_events evs @ [ev]"
  by (induction evs rule: visibility_events.induct) simp_all

lemma shouldRender_isVisible:
  "shouldRenderHighFidelity p s = isVisible (visibility_hook s)"
  by (simp add: shouldRenderHighFidelity_def render_def)

lemma entry_reached:
  "entry (reached evs) = (case last_batch evs of None \<Rightarrow> None | Some b \<Rightarrow> at_index b 0)"
  by (simp add: reached_def hook_run_def entry_foldl useIntersectionObserver_init_def
      split: option.splits)

lemma isVisible_reached: "isVisible (reached evs) = first_intersecting (last_batch evs)"
  by (simp add: isVisible_def entry_reached first_intersecting_def split: option.splits)

lemma load_foldl:
  "isLoaded (load_hook s) \<Longrightarrow> isLoaded (load_hook (foldl Image_step s evs))"
proof (induction evs arbitrary: s)
  case Nil
  then show ?case by simp
next
  case (Cons ev evs)
  then show ?case by (cases ev) (simp_all add: handleImageOnLoad_isLoaded)
qed

lemma blank_bind_None:
  "observers s = [] \<Longrightarrow> observer s = None \<Longrightarrow> cleanup s = None \<Longrightarrow> bind None s = s"
  by (simp add: bind_def effect_def run_cleanup_def)

lemma blank_step:
  assumes "observers s = []" "observer s = None" "cleanup s = None" "\<not> real_target ev"
  shows "observers (hook_step s ev) = [] \<and> observer (hook_step s ev) = None
         \<and> cleanup (hook_step s ev) = None"
proof (cases ev)
  case (Bind node)
  with assms(4) have "node = None" by (cases node) simp_all
  with Bind assms show ?thesis by (simp add: blank_bind_None)
next
  case (Deliver b)
  with assms show ?thesis by (simp add: updateEntry_def setEntry_def)
next
  case Dispose
  with assms show ?thesis by (simp add: dispose_def run_cleanup_def)
qed

lemma blank_foldl:
  assumes "observers s = []" "observer s = None" "cleanup s = None"
    "\<not> list_ex real_target evs"
  shows "observers (foldl hook_step s evs) = [] \<and> observer (foldl hook_step s evs) = None
         \<and> cleanup (foldl hook_step s evs) = None"
  using assms
proof (induction evs arbitrary: s)
  case Nil
  then show ?case by simp
next
  case (Cons ev evs)
  from Cons.prems have ev: "\<not> real_target ev" and evs: "\<not> list_ex real_target evs" by simp_all
  from blank_step [OF Cons.prems(1-3) ev] Cons.IH evs show ?case by simp
qed

lemma blank_reached:
  "\<not> list_ex real_target evs \<Longrightarrow> bind None (reached evs) = reached evs"
  by (rule blank_bind_None)
    (simp_all add: reached_def hook_run_def blank_foldl useIntersectionObserver_init_def)

lemma call_on_twice: "call_on r disconnect (call_on r disconnect xs) = call_on r disconnect xs"
  by (simp add: call_on_def disconnect_def)

lemma dispose_twice: "dispose (dispose s) = dispose s"
  by (simp add: dispose_def run_cleanup_def call_on_twice split: option.splits)

lemmas hook_defs = reached_def hook_run_def bind_def effect_def run_cleanup_def
  disconnect_previous_def create_observer_def observe_node_def call_on_def observe_def
  disconnect_def new_IntersectionObserver_def useIntersectionObserver_init_def
  updateEntry_def setEntry_def at_index_def dispose_def active_observations_def
  currentTarget_def isVisible_def Let_def

lemmas image_defs = Image_run_def Image_init_def shouldRenderHighFidelity_def render_def
  useImageOnLoad_init_def

section \<open>The claims\<close>

subsection \<open>Visibility and the high-resolution image\<close>

text \<open>
  C1 (as amended). The high-resolution image is not rendered as long as no delivered batch
  has begun with an intersecting entry, and it is rendered right after a batch whose first
  entry intersects. It does not stay rendered: after every run of events it is rendered
  exactly when the first entry of the batch delivered last intersects, so a later batch
  whose first entry does not intersect removes it again.
\<close>

theorem render_follows_latest_entry:
  "shouldRenderHighFidelity p (Image_run evs Image_init)
     = first_intersecting (last_batch (visibility_events evs))
   \<and> (\<not> list_ex starts_intersecting (visibility_events evs)
        \<longrightarrow> \<not> shouldRenderHighFidelity p (Image_run evs Image_init))
   \<and> shouldRenderHighFidelity p (Image_run (evs @ [Visibility (Deliver (e # es))]) Image_init)
       = isIntersecting e"
proof (intro conjI impI)
  show "shouldRenderHighFidelity p (Image_run evs Image_init)
          = first_intersecting (last_batch (visibility_events evs))"
    by (simp add: shouldRender_isVisible visibility_Image_run isVisible_reached)
  show "\<not> shouldRenderHighFidelity p (Image_run evs Image_init)"
    if "\<not> list_ex starts_intersecting (visibility_events evs)"
    using never_intersecting [OF that]
    by (simp add: shouldRender_isVisible visibility_Image_run isVisible_reached)
  show "shouldRenderHighFidelity p (Image_run (evs @ [Visibility (Deliver (e # es))]) Image_init)
          = isIntersecting e"
    by (simp add: shouldRender_isVisible visibility_Image_run isVisible_reached
        visibility_events_snoc last_batch_snoc first_intersecting_def at_index_def)
qed

theorem render_follows_latest_entry_witness:
  "\<not> list_ex starts_intersecting
       (visibility_events [Visibility (Bind (Some 0)),
                           Visibility (Deliver [\<lparr>isIntersecting = False, report = ()\<rparr>]),
                           HighResLoaded])
   \<and> \<not> shouldRenderHighFidelity
         \<lparr>width = None, height = None, lowResSrc = ''low.jpg'', highResSrc = ''high.jpg''\<rparr>
         (Image_run [Visibility (Bind (Some 0)),
                     Visibility (Deliver [\<lparr>isIntersecting = False, report = ()\<rparr>]),
                     HighResLoaded] Image_init)
   \<and> shouldRenderHighFidelity
       \<lparr>width = None, height = None, lowResSrc = ''low.jpg'', highResSrc = ''high.jpg''\<rparr>
       (Image_run ([Visibility (Bind (Some 0)),
                    Visibility (Deliver [\<lparr>isIntersecting = False, report = ()\<rparr>]),
                    HighResLoaded]
                   @ [Visibility (Deliver [\<lparr>isIntersecting = True, report = ()\<rparr>])])
          Image_init)"
  using render_follows_latest_entry
    [of "\<lparr>width = None, height = None, lowResSrc = ''low.jpg'', highResSrc = ''high.jpg''\<rparr>"
        "[Visibility (Bind (Some 0)),
          Visibility (Deliver [\<lparr>isIntersecting = False, report = ()\<rparr>]),
          HighResLoaded]"
        "\<lparr>isIntersecting = True, report = ()\<rparr>" "[]"]
  by (simp add: first_intersecting_def at_index_def)

text \<open>
  C1 as stated fails. With the container bound to an element, a batch with one
  intersecting entry makes the image rendered, and a following batch with one entry that
  does not intersect makes it not rendered. An intersecting entry that is second in its
  batch does not make it rendered either.
\<close>

theorem stays_rendered_counterexample:
  "shouldRenderHighFidelity
     \<lparr>width = None, height = None, lowResSrc = ''low.jpg'', highResSrc = ''high.jpg''\<rparr>
     (Image_run [Visibility (Bind (Some 0)),
                 Visibility (Deliver [\<lparr>isIntersecting = True, report = ()\<rparr>])] Image_init)
   \<and> \<not> shouldRenderHighFidelity
         \<lparr>width = None, height = None, lowResSrc = ''low.jpg'', highResSrc = ''high.jpg''\<rparr>
         (Image_run [Visibility (Bind (Some 0)),
                     Visibility (Deliver [\<lparr>isIntersecting = True, report = ()\<rparr>]),
                     Visibility (Deliver [\<lparr>isIntersecting = False, report = ()\<rparr>])]
            Image_init)
   \<and> \<not> shouldRenderHighFidelity
         \<lparr>width = None, height = None, lowResSrc = ''low.jpg'', highResSrc = ''high.jpg''\<rparr>
         (Image_run [Visibility (Bind (Some 0)),
                     Visibility (Deliver [\<lparr>isIntersecting = False, report = ()\<rparr>,
                                          \<lparr>isIntersecting = True, report = ()\<rparr>])]
            Image_init)"
  by (simp add: hook_defs image_defs)

subsection \<open>Observations\<close>

text \<open>
  C2. After any run of events of a fresh hook instance at most one observation is active.
  A further \<open>bind\<close> with an element passes only through states with at most one active
  observation: none is active once the previous observer is disconnected, none when the
  new observer is made, and exactly one, of the new element, at the end. A further
  \<open>bind\<close> without an element leaves none active.
\<close>

theorem at_most_one_observation:
  "active_observations (reached evs) \<le> 1
   \<and> list_all (\<lambda>u. active_observations u \<le> 1) (bind_states n (reached evs))
   \<and> active_observations (disconnect_previous (run_cleanup (reached evs))) = 0
   \<and> active_observations (bind (Some n) (reached evs)) = 1
   \<and> currentTarget (bind (Some n) (reached evs)) = Some n
   \<and> active_observations (bind None (reached evs)) = 0"
proof -
  let ?s = "reached evs"
  have l: "linked ?s" by (rule linked_reached)
  then have c: "linked (run_cleanup ?s)" "active_observations (run_cleanup ?s) = 0"
    by (simp_all add: linked_run_cleanup)
  from idle_disconnect_previous [OF c(1)]
  have d: "active_observations (disconnect_previous (run_cleanup ?s)) = 0"
    "list_all idle (observers (disconnect_previous (run_cleanup ?s)))" by simp_all
  from create_observer_idle [OF d(2)]
  have n: "active_observations (create_observer (disconnect_previous (run_cleanup ?s))) = 0"
    by simp
  have b: "active_observations (bind (Some n) ?s) = 1" "currentTarget (bind (Some n) ?s) = Some n"
    using bind_Some [OF l, of n] by simp_all
  have a: "active_observations (bind None ?s) = 0"
    using bind_None [OF l] by simp
  from linked_active [OF l] c(2) d(1) n b a show ?thesis
    by (simp add: bind_states_def)
qed

theorem at_most_one_observation_witness:
  "active_observations
     (reached [Bind (Some 1), Deliver [\<lparr>isIntersecting = True, report = ()\<rparr>],
               Bind (Some 1), Bind (Some 2)]) = 1
   \<and> observers
       (reached [Bind (Some 1), Deliver [\<lparr>isIntersecting = True, report = ()\<rparr>],
                 Bind (Some 1), Bind (Some 2)])
       = [\<lparr>targets = []\<rparr>, \<lparr>targets = []\<rparr>, \<lparr>targets = [2]\<rparr>]
   \<and> map active_observations
       (bind_states 3
         (reached [Bind (Some 1), Deliver [\<lparr>isIntersecting = True, report = ()\<rparr>],
                   Bind (Some 1), Bind (Some 2)])) = [0, 0, 0, 1]
   \<and> currentTarget
       (bind (Some 3)
         (reached [Bind (Some 1), Deliver [\<lparr>isIntersecting = True, report = ()\<rparr>],
                   Bind (Some 1), Bind (Some 2)])) = Some 3"
  using at_most_one_observation
    [of "[Bind (Some 1), Deliver [\<lparr>isIntersecting = True, report = ()\<rparr>],
          Bind (Some 1), Bind (Some 2)]" 3]
  by (simp add: hook_defs bind_states_def)

subsection \<open>The load state and the styles\<close>

text \<open>
  C3. Marking the image as loaded twice gives the state that marking it once gives, and
  once \<^verbatim>\<open>isLoaded\<close> is true it is true after any number of further load events and
  after any run of events of the component.
\<close>

theorem markLoaded_idempotent_monotonic:
  "handleImageOnLoad (handleImageOnLoad s) = handleImageOnLoad s
   \<and> (isLoaded s \<longrightarrow> isLoaded (loads n s))
   \<and> isLoaded (loads n (handleImageOnLoad s))
   \<and> (isLoaded (load_hook i) \<longrightarrow> isLoaded (load_hook (Image_run evs i)))"
  by (simp add: handleImageOnLoad_def setIsLoaded_def loads_keeps_loaded Image_run_def load_foldl)

theorem markLoaded_idempotent_monotonic_witness:
  "isLoaded (handleImageOnLoad useImageOnLoad_init)
   \<and> handleImageOnLoad (handleImageOnLoad useImageOnLoad_init)
       = handleImageOnLoad useImageOnLoad_init
   \<and> isLoaded (loads 2 (handleImageOnLoad useImageOnLoad_init))
   \<and> isLoaded (load_hook (Image_run [HighResLoaded] Image_init))
   \<and> isLoaded (load_hook
        (Image_run [Visibility (Deliver [\<lparr>isIntersecting = False, report = ()\<rparr>]),
                    HighResLoaded]
           (Image_run [HighResLoaded] Image_init)))"
  using markLoaded_idempotent_monotonic
    [of "handleImageOnLoad useImageOnLoad_init" 2 "Image_run [HighResLoaded] Image_init"
        "[Visibility (Deliver [\<lparr>isIntersecting = False, report = ()\<rparr>]), HighResLoaded]"]
  by (simp add: handleImageOnLoad_def setIsLoaded_def useImageOnLoad_init_def image_defs)

text \<open>
  C4. The styles depend on \<^verbatim>\<open>isLoaded\<close> only. Not loaded: the low-resolution layer has
  opacity 1 and the blur filter, the high-resolution layer opacity 0. Loaded: the
  low-resolution layer has opacity 0, the high-resolution layer opacity 1. In both cases
  the transition is the literal given: opacity over 500ms after 50ms, ease-out for the
  low-resolution layer and ease-in for the high-resolution one.
\<close>

theorem deriveStyle_values:
  "lowRes (transitionStyles s) ''opacity'' = Some (Num (if isLoaded s then 0 else 1))
   \<and> highRes (transitionStyles s) ''opacity'' = Some (Num (if isLoaded s then 1 else 0))
   \<and> lowRes (transitionStyles s) ''filter'' = Some (Str ''blur(2px)'')
   \<and> highRes (transitionStyles s) ''filter'' = None
   \<and> lowRes (transitionStyles s) ''transition'' = Some (Str ''opacity 500ms ease-out 50ms'')
   \<and> highRes (transitionStyles s) ''transition'' = Some (Str ''opacity 500ms ease-in 50ms'')
   \<and> (isLoaded s = isLoaded t \<longrightarrow> transitionStyles s = transitionStyles t)"
  by (simp add: transitionStyles_def)

theorem deriveStyle_values_witness:
  "lowRes (transitionStyles \<lparr>isLoaded = False\<rparr>) ''opacity'' = Some (Num 1)
   \<and> highRes (transitionStyles \<lparr>isLoaded = False\<rparr>) ''opacity'' = Some (Num 0)
   \<and> lowRes (transitionStyles \<lparr>isLoaded = True\<rparr>) ''opacity'' = Some (Num 0)
   \<and> highRes (transitionStyles \<lparr>isLoaded = True\<rparr>) ''opacity'' = Some (Num 1)
   \<and> isLoaded (handleImageOnLoad \<lparr>isLoaded = True\<rparr>) = isLoaded \<lparr>isLoaded = True\<rparr>
   \<and> transitionStyles (handleImageOnLoad \<lparr>isLoaded = True\<rparr>)
       = transitionStyles \<lparr>isLoaded = True\<rparr>"
  using deriveStyle_values [of "\<lparr>isLoaded = False\<rparr>" "\<lparr>isLoaded = False\<rparr>"]
    deriveStyle_values [of "handleImageOnLoad \<lparr>isLoaded = True\<rparr>" "\<lparr>isLoaded = True\<rparr>"]
  by (simp add: handleImageOnLoad_def setIsLoaded_def)

text \<open>
  C9. The low-resolution style carries the filter \<^verbatim>\<open>blur(2px)\<close> whatever
  \<^verbatim>\<open>isLoaded\<close> is: after the load event its opacity is 0 and the filter is still
  there, also in the style the component gives the image element.
\<close>

theorem blur_unconditional:
  "lowRes (transitionStyles s) ''filter'' = Some (Str ''blur(2px)'')
   \<and> lowRes (transitionStyles (handleImageOnLoad s)) ''filter'' = Some (Str ''blur(2px)'')
   \<and> lowRes (transitionStyles (handleImageOnLoad s)) ''opacity'' = Some (Num 0)
   \<and> lowResStyle (i :: 'a Image) ''filter'' = Some (Str ''blur(2px)'')"
  by (simp add: transitionStyles_def lowResStyle_def spread_def handleImageOnLoad_def
      setIsLoaded_def)

theorem blur_unconditional_witness:
  "lowRes (transitionStyles \<lparr>isLoaded = True\<rparr>) ''filter'' = Some (Str ''blur(2px)'')
   \<and> lowRes (transitionStyles \<lparr>isLoaded = False\<rparr>) ''filter'' = Some (Str ''blur(2px)'')
   \<and> lowResStyle (Image_run [HighResLoaded] (Image_init :: unit Image)) ''filter''
       = Some (Str ''blur(2px)'')
   \<and> lowResStyle (Image_run [HighResLoaded] (Image_init :: unit Image)) ''opacity''
       = Some (Num 0)"
  using blur_unconditional [of "\<lparr>isLoaded = True\<rparr>" "Image_run [HighResLoaded] (Image_init :: unit Image)"]
    blur_unconditional [of "\<lparr>isLoaded = False\<rparr>" "Image_init :: unit Image"]
  by (simp add: image_defs lowResStyle_def spread_def transitionStyles_def handleImageOnLoad_def
      setIsLoaded_def)

text \<open>
  C7. A component instance that has received no event does not render the
  high-resolution image, is not loaded, gives the low-resolution image opacity 1 and the
  blur filter, and would give the high-resolution image opacity 0.
\<close>

theorem initial_state:
  "\<not> shouldRenderHighFidelity p (Image_init :: 'a Image)
   \<and> highResImg (render p (Image_init :: 'a Image)) = None
   \<and> \<not> isLoaded (load_hook (Image_init :: 'a Image))
   \<and> img_style (lowResImg (render p (Image_init :: 'a Image))) ''opacity'' = Some (Num 1)
   \<and> img_style (lowResImg (render p (Image_init :: 'a Image))) ''filter''
       = Some (Str ''blur(2px)'')
   \<and> hightResStyle (Image_init :: 'a Image) ''opacity'' = Some (Num 0)"
  by (simp add: shouldRenderHighFidelity_def render_def Image_init_def useImageOnLoad_init_def
      useIntersectionObserver_init_def isVisible_def lowResStyle_def hightResStyle_def
      spread_def transitionStyles_def)

theorem initial_state_witness:
  "render \<lparr>width = Some (Num 600), height = Some (Num 400), lowResSrc = ''low.jpg'',
           highResSrc = ''high.jpg''\<rparr> (Image_init :: unit Image)
     = \<lparr>wrapper = [''position'' \<mapsto> Str ''relative'', ''width'' \<mapsto> Num 600,
                    ''height'' \<mapsto> Num 400],
        lowResImg = \<lparr>src = ''low.jpg'', img_style = lowResStyle (Image_init :: unit Image)\<rparr>,
        highResImg = None\<rparr>
   \<and> lowResStyle (Image_init :: unit Image) ''opacity'' = Some (Num 1)
   \<and> lowResStyle (Image_init :: unit Image) ''filter'' = Some (Str ''blur(2px)'')"
  using initial_state
    [of "\<lparr>width = Some (Num 600), height = Some (Num 400), lowResSrc = ''low.jpg'',
          highResSrc = ''high.jpg''\<rparr>", where ?'a = unit]
  by (simp add: render_def styles_wrapper_def default_to_def shouldRenderHighFidelity_def)

subsection \<open>Delivered batches\<close>

text \<open>
  C8. A batch that is not empty leaves its first entry in \<^verbatim>\<open>entry\<close>, whatever the
  later entries are, and changes nothing else of the hook's state.
\<close>

theorem first_of_batch:
  "updateEntry (e # es) s = s\<lparr>entry := Some e\<rparr>
   \<and> (entries \<noteq> [] \<longrightarrow> entry (updateEntry entries s) = Some (hd entries))
   \<and> observers (updateEntry entries s) = observers s
   \<and> observer (updateEntry entries s) = observer s
   \<and> cleanup (updateEntry entries s) = cleanup s"
  by (cases entries) (simp_all add: updateEntry_def setEntry_def at_index_def)

theorem first_of_batch_witness:
  "[\<lparr>isIntersecting = False, report = ''first''\<rparr>, \<lparr>isIntersecting = True, report = ''second''\<rparr>]
     \<noteq> []
   \<and> entry (updateEntry
        [\<lparr>isIntersecting = False, report = ''first''\<rparr>,
         \<lparr>isIntersecting = True, report = ''second''\<rparr>]
        (reached [Bind (Some 0)]))
       = Some \<lparr>isIntersecting = False, report = ''first''\<rparr>"
  using first_of_batch
    [of "\<lparr>isIntersecting = False, report = ''first''\<rparr>"
        "[\<lparr>isIntersecting = True, report = ''second''\<rparr>]"
        "reached [Bind (Some 0)]"
        "[\<lparr>isIntersecting = False, report = ''first''\<rparr>,
          \<lparr>isIntersecting = True, report = ''second''\<rparr>]"]
  by simp

text \<open>
  C10. An empty batch stores an absent \<^verbatim>\<open>entry\<close>, replacing whatever was stored, and
  \<^verbatim>\<open>isVisible\<close> is false afterwards. \<open>updateEntry\<close> has no failing branch: reading
  index 0 of an empty array gives \<^verbatim>\<open>undefined\<close>, which is what is stored.
\<close>

theorem empty_batch:
  "updateEntry [] s = s\<lparr>entry := None\<rparr>
   \<and> entry (updateEntry [] s) = None
   \<and> \<not> isVisible (updateEntry [] s)"
  by (simp add: updateEntry_def setEntry_def at_index_def isVisible_def)

theorem empty_batch_witness:
  "entry (reached [Bind (Some 0), Deliver [\<lparr>isIntersecting = True, report = ()\<rparr>]])
     = Some \<lparr>isIntersecting = True, report = ()\<rparr>
   \<and> entry (updateEntry []
        (reached [Bind (Some 0), Deliver [\<lparr>isIntersecting = True, report = ()\<rparr>]])) = None
   \<and> \<not> isVisible (updateEntry []
        (reached [Bind (Some 0), Deliver [\<lparr>isIntersecting = True, report = ()\<rparr>]]))"
  using empty_batch
    [of "reached [Bind (Some 0), Deliver [\<lparr>isIntersecting = True, report = ()\<rparr>]]"]
  by (simp add: hook_defs)

subsection \<open>Disposal and the absent target\<close>

text \<open>
  C5 (as amended). \<open>dispose\<close> has no failing branch and is idempotent. It leaves
  \<^verbatim>\<open>entry\<close> as it is, so \<^verbatim>\<open>isVisible\<close> is after it what it was before; no
  observation is active after it; on a fresh instance it changes nothing; and when no
  batch was ever delivered, \<^verbatim>\<open>isVisible\<close> is false after it.
\<close>

theorem dispose_idempotent_keeps_entry:
  "dispose (dispose s) = dispose s
   \<and> entry (dispose s) = entry s
   \<and> isVisible (dispose s) = isVisible s
   \<and> active_observations (dispose (reached evs)) = 0
   \<and> dispose useIntersectionObserver_init = (useIntersectionObserver_init :: 'a hook)
   \<and> (last_batch evs = None \<longrightarrow> \<not> isVisible (dispose (reached evs)))"
proof (intro conjI impI)
  show "dispose (dispose s) = dispose s" by (rule dispose_twice)
  show e: "entry (dispose s) = entry s" by (simp add: dispose_def entry_run_cleanup)
  show "isVisible (dispose s) = isVisible s" by (simp add: isVisible_def e)
  show "active_observations (dispose (reached evs)) = 0"
    by (simp add: dispose_def linked_run_cleanup linked_reached)
  show "dispose useIntersectionObserver_init = (useIntersectionObserver_init :: 'a hook)"
    by (simp add: dispose_def run_cleanup_def useIntersectionObserver_init_def)
  show "\<not> isVisible (dispose (reached evs))" if "last_batch evs = None"
    using that by (simp add: isVisible_def dispose_def entry_run_cleanup entry_reached)
qed

theorem dispose_idempotent_keeps_entry_witness:
  "last_batch [Bind (Some 0), Dispose :: unit hook_event] = None
   \<and> \<not> isVisible (dispose (reached [Bind (Some 0), Dispose :: unit hook_event]))
   \<and> observers (reached [Bind (Some 0) :: unit hook_event]) = [\<lparr>targets = [0]\<rparr>]
   \<and> observers (dispose (reached [Bind (Some 0) :: unit hook_event])) = [\<lparr>targets = []\<rparr>]
   \<and> dispose (dispose (reached [Bind (Some 0) :: unit hook_event]))
       = dispose (reached [Bind (Some 0)])"
  using dispose_idempotent_keeps_entry
    [of "reached [Bind (Some 0) :: unit hook_event]" "[Bind (Some 0), Dispose :: unit hook_event]"]
  by (simp add: hook_defs)

text \<open>
  C5 as stated fails: with an element bound and an intersecting entry delivered,
  \<^verbatim>\<open>isVisible\<close> is still true after \<open>dispose\<close>.
\<close>

theorem dispose_clears_visibility_counterexample:
  "isVisible
     (dispose (reached [Bind (Some 0), Deliver [\<lparr>isIntersecting = True, report = ()\<rparr>]]))"
  by (simp add: hook_defs)

text \<open>
  C6. Without an element the effect returns at its guard and changes nothing. When no
  element was ever bound, \<open>bind\<close> without an element leaves the state as it is. In
  every reachable state, after \<open>bind\<close> without an element no observation is active and
  the current observer watches no element (the clean-up function of the previous run
  has disconnected it), and \<^verbatim>\<open>entry\<close> is as before.
\<close>

theorem bind_absent_target:
  "effect None s = (s, None)
   \<and> (\<not> list_ex real_target evs \<longrightarrow> bind None (reached evs) = reached evs)
   \<and> active_observations (bind None (reached evs)) = 0
   \<and> currentTarget (bind None (reached evs)) = None
   \<and> entry (bind None (reached evs)) = entry (reached evs)"
  by (simp add: effect_def blank_reached bind_None linked_reached)

theorem bind_absent_target_witness:
  "\<not> list_ex real_target [Bind None, Deliver [] :: unit hook_event]
   \<and> bind None (reached [Bind None, Deliver [] :: unit hook_event])
       = reached [Bind None, Deliver []]
   \<and> list_ex real_target [Bind (Some 5) :: unit hook_event]
   \<and> currentTarget (reached [Bind (Some 5) :: unit hook_event]) = Some 5
   \<and> active_observations (reached [Bind (Some 5) :: unit hook_event]) = 1
   \<and> currentTarget (bind None (reached [Bind (Some 5) :: unit hook_event])) = None
   \<and> active_observations (bind None (reached [Bind (Some 5) :: unit hook_event])) = 0"
  using bind_absent_target
    [of "reached [Bind None :: unit hook_event]" "[Bind None, Deliver [] :: unit hook_event]"]
    bind_absent_target
    [of "reached [Bind None :: unit hook_event]" "[Bind (Some 5) :: unit hook_event]"]
  by (simp add: hook_defs)

end
